theory Spec2Isabelle
  imports Main
begin

section \<open>Strings of the host\<close>

text \<open>
  A JavaScript string is a sequence of code units. The model writes one \<^typ>\<open>char\<close>
  per code unit and so covers the code units below 256. The case mappings
  \<open>toUpperCase\<close> and \<open>toLowerCase\<close> are the host's, and are taken from it (see the
  record \<open>host\<close> below).
\<close>

definition is_white :: "char \<Rightarrow> bool" where
  \<comment> \<open>WhiteSpace and LineTerminator code units below 256, as \<open>String.prototype.trim\<close> strips them\<close>
  "is_white c = (c \<in> set [CHR 0x09, CHR 0x0A, CHR 0x0B, CHR 0x0C, CHR 0x0D, CHR 0x20, CHR 0xA0])"

definition trim :: "string \<Rightarrow> string" where
  "trim s = rev (dropWhile is_white (rev (dropWhile is_white s)))"

fun split_on :: "char \<Rightarrow> string \<Rightarrow> string list" where
  \<comment> \<open>\<open>s.split(sep)\<close> for a one-character separator: never the empty list\<close>
  "split_on sep [] = [[]]"
| "split_on sep (c # cs) =
     (if c = sep then [] # split_on sep cs
      else (case split_on sep cs of
              p # ps \<Rightarrow> (c # p) # ps
            | [] \<Rightarrow> [[c]]))"

fun join_with :: "char \<Rightarrow> string list \<Rightarrow> string" where
  \<comment> \<open>\<open>parts.join(sep)\<close>\<close>
  "join_with sep [] = []"
| "join_with sep [p] = p"
| "join_with sep (p # q # ps) = p @ sep # join_with sep (q # ps)"

fun starts_with :: "string \<Rightarrow> string \<Rightarrow> bool" where
  \<comment> \<open>\<open>starts_with p s\<close>: the string \<open>s\<close> begins with \<open>p\<close>\<close>
  "starts_with [] s = True"
| "starts_with (p # ps) [] = False"
| "starts_with (p # ps) (c # cs) = (p = c \<and> starts_with ps cs)"

section \<open>Parsing the content of a marker\<close>

text \<open>
  Lines 66 to 70 of \<open>replaceBuiltInMarkers\<close>:
  \<^verbatim>\<open>
      const parts = markerContent.split(':');
      const markerName = parts[0].trim();
      const paramString = parts.slice(1).join(':');
      const params = paramString ? paramString.split(',').map(p => p.trim()) : [];
  \<close>
  \<open>parts\<close> is never empty, so \<open>parts[0]\<close> is its head. The empty string is falsy:
  an empty \<open>paramString\<close> gives no parameter at all.
\<close>

definition parse_marker :: "string \<Rightarrow> string \<times> string list" where
  "parse_marker markerContent =
     (let parts = split_on CHR '':'' markerContent;
          markerName = trim (hd parts);
          paramString = join_with CHR '':'' (tl parts);
          params = (if paramString \<noteq> [] then map trim (split_on CHR '','' paramString) else [])
      in (markerName, params))"

section \<open>Replacement strings\<close>

text \<open>
  \<open>String.prototype.replace\<close> does not insert its second argument as it stands: it
  expands it with GetSubstitution. Neither pattern used by the program has a capture
  group that a replacement could name (the custom-data patterns of the fragment below have
  none, and a string pattern never has one), so \<open>$1\<close>, \<open>$<\<close> and a lone \<open>$\<close> stay
  as they are, and four forms are expanded: \<open>$$\<close>, \<open>$&\<close>, \<open>$`\<close> and \<open>$'\<close>.
\<close>

fun getSubstitution :: "string \<Rightarrow> string \<Rightarrow> string \<Rightarrow> string \<Rightarrow> string" where
  \<comment> \<open>the matched text, the text before it, the text after it, the replacement template\<close>
  "getSubstitution matched preceding following [] = []"
| "getSubstitution matched preceding following [c] = [c]"
| "getSubstitution matched preceding following (c # d # r) =
     (if c = CHR ''$'' \<and> d = CHR ''$'' then CHR ''$'' # getSubstitution matched preceding following r
      else if c = CHR ''$'' \<and> d = CHR ''&'' then matched @ getSubstitution matched preceding following r
      else if c = CHR ''$'' \<and> d = CHR 0x60 then preceding @ getSubstitution matched preceding following r
      else if c = CHR ''$'' \<and> d = CHR 0x27 then following @ getSubstitution matched preceding following r
      else c # getSubstitution matched preceding following (d # r))"

fun split_at_first :: "string \<Rightarrow> string \<Rightarrow> (string \<times> string) option" where
  \<comment> \<open>the text before and after the first occurrence of \<open>pat\<close>, if there is one\<close>
  "split_at_first pat [] = (if pat = [] then Some ([], []) else None)"
| "split_at_first pat (c # cs) =
     (if starts_with pat (c # cs) then Some ([], drop (length pat) (c # cs))
      else map_option (\<lambda>(preceding, following). (c # preceding, following)) (split_at_first pat cs))"

definition string_replace :: "string \<Rightarrow> string \<Rightarrow> string \<Rightarrow> string" where
  \<comment> \<open>\<open>s.replace(searchString, replaceValue)\<close> with two strings: the first occurrence only\<close>
  "string_replace s searchString replaceValue =
     (case split_at_first searchString s of
        None \<Rightarrow> s
      | Some (preceding, following) \<Rightarrow>
          preceding @ getSubstitution searchString preceding following replaceValue @ following)"

section \<open>Finding the markers\<close>

text \<open>
  \<open>text.matchAll(/{{([^}]+)}}/g)\<close>. At a given start the pattern has at most one match:
  two opening braces, the longest run of characters other than \<open>}\<close> (which must not be
  empty), and two closing braces; giving back characters of the run cannot help, since
  the character that follows would then not be \<open>}\<close>. The scan takes the leftmost match
  and goes on after its end.
\<close>

definition match_marker_here :: "string \<Rightarrow> (string \<times> string) option" where
  \<comment> \<open>the group \<open>match[1]\<close> and the text after the match\<close>
  "match_marker_here s =
     (case s of
        c # d # r \<Rightarrow>
          (let content = takeWhile (\<lambda>x. x \<noteq> CHR ''}'') r;
               tail = dropWhile (\<lambda>x. x \<noteq> CHR ''}'') r
           in if c = CHR ''{'' \<and> d = CHR ''{'' \<and> content \<noteq> [] \<and> starts_with ''}}'' tail
              then Some (content, drop 2 tail) else None)
      | _ \<Rightarrow> None)"

function matchAll_markers :: "string \<Rightarrow> (string \<times> string) list" where
  \<comment> \<open>for each match, \<open>match[0]\<close> and \<open>match[1]\<close>\<close>
  "matchAll_markers [] = []"
| "matchAll_markers (c # cs) =
     (case match_marker_here (c # cs) of
        Some (content, rest) \<Rightarrow> (''{{'' @ content @ ''}}'', content) # matchAll_markers rest
      | None \<Rightarrow> matchAll_markers cs)"
  by pat_completeness auto
termination
proof (relation "measure length")
  show "wf (measure (length :: string \<Rightarrow> nat))" by simp
next
  fix c :: char and cs :: string and x2 :: "string \<times> string" and content rest :: string
  assume m: "match_marker_here (c # cs) = Some x2" and x: "(content, rest) = x2"
  from m x obtain d r where cs: "cs = d # r"
    and rest: "rest = drop 2 (dropWhile (\<lambda>x. x \<noteq> CHR ''}'') r)"
    by (auto simp: match_marker_here_def Let_def split: list.splits if_splits)
  have "length (dropWhile (\<lambda>x. x \<noteq> CHR ''}'') r) \<le> length r"
    by (rule length_dropWhile_le)
  with cs rest show "(rest, c # cs) \<in> measure length" by simp
next
  fix c :: char and cs :: string
  show "(cs, c # cs) \<in> measure length" by simp
qed

section \<open>The registry\<close>

text \<open>
  A marker function takes the parameters and returns a string or throws; it is modelled as
  a function of its parameters, so a function that answers differently from one call to
  the next is outside the model. What it throws is any value: the handler of
  \<open>replaceBuiltInMarkers\<close> reads the property \<open>message\<close> of it, which a value other
  than \<open>null\<close> and \<open>undefined\<close> has or has not, and which cannot be read from
  \<open>null\<close> or \<open>undefined\<close>. The message of a TypeError that the host raises is the
  host's text, which differs from one host to the next: the model records which failure
  it was, not the text.
\<close>

datatype host_failure =
    Reads_undefined string
  | Calls_no_function
  | Without_receiver string
  \<comment> \<open>a property of that name is read from \<open>undefined\<close>; the value called is not a
      function; the built-in function of that name is called without a receiver it can
      convert to an object\<close>

datatype message = Message string | Host_message host_failure | No_message
  \<comment> \<open>what \<open>error.message\<close> gives: the message of an error the marker function made, the
      host's text for a failure of the host, or \<open>undefined\<close>\<close>

datatype thrown = Raised message | Raised_nullish

type_synonym marker_fn = "string list \<Rightarrow> thrown + string"

type_synonym registry = "string \<rightharpoonup> marker_fn"

definition constant_marker :: "string \<Rightarrow> marker_fn" where
  \<comment> \<open>\<open>() => v\<close>\<close>
  "constant_marker v = (\<lambda>params. Inr v)"

definition throwing_marker :: "thrown \<Rightarrow> marker_fn" where
  \<comment> \<open>\<open>() => { throw e }\<close>\<close>
  "throwing_marker e = (\<lambda>params. Inl e)"

definition registerMarker :: "registry \<Rightarrow> string \<Rightarrow> marker_fn \<Rightarrow> registry option" where
  \<comment> \<open>\<open>this.markers[name] = fn\<close>. Assigning to \<open>__proto__\<close> creates no entry: it replaces
      the prototype of the object, which the model does not follow (\<open>None\<close>).\<close>
  "registerMarker markers name fn =
     (if name = ''__proto__'' then None else Some (markers(name \<mapsto> fn)))"

definition object_prototype :: "(string \<times> marker_fn) list" where
  \<comment> \<open>\<open>this.markers\<close> is an object literal, so \<open>this.markers[markerName]\<close> also finds what
      \<open>Object.prototype\<close> holds. Each entry says what the call \<open>markerFn(...params)\<close> does
      with the value found: the call has no receiver and strings as arguments.\<close>
  "object_prototype =
     [(''constructor'', \<lambda>params. Inr (case params of [] \<Rightarrow> ''[object Object]'' | p # _ \<Rightarrow> p)),
      (''toString'', \<lambda>params. Inr ''[object Undefined]''),
      (''isPrototypeOf'', \<lambda>params. Inr ''false''),
      (''valueOf'', \<lambda>params. Inl (Raised (Host_message (Without_receiver ''valueOf'')))),
      (''toLocaleString'', \<lambda>params. Inl (Raised (Host_message (Without_receiver ''toLocaleString'')))),
      (''hasOwnProperty'', \<lambda>params. Inl (Raised (Host_message (Without_receiver ''hasOwnProperty'')))),
      (''propertyIsEnumerable'',
         \<lambda>params. Inl (Raised (Host_message (Without_receiver ''propertyIsEnumerable'')))),
      (''__defineGetter__'', \<lambda>params. Inl (Raised (Host_message (Without_receiver ''__defineGetter__'')))),
      (''__defineSetter__'', \<lambda>params. Inl (Raised (Host_message (Without_receiver ''__defineSetter__'')))),
      (''__lookupGetter__'', \<lambda>params. Inl (Raised (Host_message (Without_receiver ''__lookupGetter__'')))),
      (''__lookupSetter__'', \<lambda>params. Inl (Raised (Host_message (Without_receiver ''__lookupSetter__'')))),
      (''__proto__'', \<lambda>params. Inl (Raised (Host_message Calls_no_function)))]"

definition get_marker :: "registry \<Rightarrow> string \<Rightarrow> marker_fn option" where
  \<comment> \<open>\<open>this.markers[markerName]\<close>: an own entry first, then the prototype\<close>
  "get_marker markers markerName =
     (case markers markerName of
        Some fn \<Rightarrow> Some fn
      | None \<Rightarrow> map_of object_prototype markerName)"

text \<open>
  The built-in markers for dates, numbers and random values compute with the clock, the
  floating-point numbers and the random source of the host: the model takes what they
  return from the host, by marker name (\<open>native\<close>). The three markers on text are
  written out, with the case mappings of the host.
\<close>

record host =
  native :: "string \<Rightarrow> marker_fn"
  toUpperCase :: "string \<Rightarrow> string"
  toLowerCase :: "string \<Rightarrow> string"

definition capitalize :: "host \<Rightarrow> marker_fn" where
  \<comment> \<open>\<open>(text) => text.charAt(0).toUpperCase() + text.slice(1).toLowerCase()\<close>;
      without an argument \<open>text\<close> is \<open>undefined\<close>\<close>
  "capitalize h params =
     (case params of
        [] \<Rightarrow> Inl (Raised (Host_message (Reads_undefined ''charAt'')))
      | text # _ \<Rightarrow> Inr (toUpperCase h (take 1 text) @ toLowerCase h (drop 1 text)))"

definition upper :: "host \<Rightarrow> marker_fn" where
  \<comment> \<open>\<open>(text) => text.toUpperCase()\<close>\<close>
  "upper h params =
     (case params of
        [] \<Rightarrow> Inl (Raised (Host_message (Reads_undefined ''toUpperCase'')))
      | text # _ \<Rightarrow> Inr (toUpperCase h text))"

definition lower :: "host \<Rightarrow> marker_fn" where
  \<comment> \<open>\<open>(text) => text.toLowerCase()\<close>\<close>
  "lower h params =
     (case params of
        [] \<Rightarrow> Inl (Raised (Host_message (Reads_undefined ''toLowerCase'')))
      | text # _ \<Rightarrow> Inr (toLowerCase h text))"

definition builtin_entries :: "host \<Rightarrow> (string \<times> marker_fn) list" where
  "builtin_entries h =
     [(''current_year'', native h ''current_year''),
      (''current_month'', native h ''current_month''),
      (''current_date'', native h ''current_date''),
      (''current_time'', native h ''current_time''),
      (''days_since'', native h ''days_since''),
      (''days_until'', native h ''days_until''),
      (''years_since'', native h ''years_since''),
      (''age'', native h ''age''),
      (''relative_time'', native h ''relative_time''),
      (''timestamp'', native h ''timestamp''),
      (''add'', native h ''add''),
      (''subtract'', native h ''subtract''),
      (''multiply'', native h ''multiply''),
      (''divide'', native h ''divide''),
      (''random'', native h ''random''),
      (''capitalize'', capitalize h),
      (''upper'', upper h),
      (''lower'', lower h),
      (''format_number'', native h ''format_number'')]"

definition getBuiltInMarkers :: "host \<Rightarrow> registry" where
  "getBuiltInMarkers h = map_of (builtin_entries h)"

section \<open>The pass over the markers\<close>

datatype js_error = SyntaxError | TypeError

datatype 'a outcome = Returns 'a | Throws js_error | Outside_model

type_synonym diagnostic = "string \<times> message"

text \<open>
  The loop of \<open>replaceBuiltInMarkers\<close> over the matches, with the text \<open>result\<close> and the
  lines written by \<open>console.error\<close> as its state:
  \<^verbatim>\<open>
      const markerFn = this.markers[markerName];
      if (markerFn) {
        try {
          const replacement = markerFn(...params);
          result = result.replace(fullMarker, replacement);
        } catch (error) {
          console.error(`Error processing marker ${fullMarker}:`, error.message);
        }
      }
  \<close>
  A match whose name is not found changes nothing. A function that throws is caught, and
  the handler logs the marker and \<open>error.message\<close>; reading \<open>message\<close> from \<open>null\<close> or
  \<open>undefined\<close> is a TypeError that nothing catches. The matches are those of the text
  the pass was given, while each replacement is made in the current \<open>result\<close>.
\<close>

fun marker_loop ::
  "registry \<Rightarrow> (string \<times> string) list \<Rightarrow> string \<Rightarrow> diagnostic list
     \<Rightarrow> (string \<times> diagnostic list) outcome" where
  "marker_loop markers [] result logged = Returns (result, logged)"
| "marker_loop markers ((fullMarker, markerContent) # matches) result logged =
     (case get_marker markers (fst (parse_marker markerContent)) of
        None \<Rightarrow> marker_loop markers matches result logged
      | Some markerFn \<Rightarrow>
          (case markerFn (snd (parse_marker markerContent)) of
             Inr replacement \<Rightarrow>
               marker_loop markers matches (string_replace result fullMarker replacement) logged
           | Inl (Raised message) \<Rightarrow>
               marker_loop markers matches result (logged @ [(fullMarker, message)])
           | Inl Raised_nullish \<Rightarrow> Throws TypeError))"

definition replaceBuiltInMarkers ::
  "registry \<Rightarrow> string \<Rightarrow> (string \<times> diagnostic list) outcome" where
  "replaceBuiltInMarkers markers text = marker_loop markers (matchAll_markers text) text []"

section \<open>The pattern of a custom-data key\<close>

text \<open>
  \<open>replaceCustomData\<close> builds \<open>new RegExp(`{{${key}}}`, 'g')\<close>: the source of the
  pattern is \<open>{{\<close>, the key as it stands, and \<open>}}\<close>. The model reads the part of the
  pattern language that has no group, class, escape, alternative or assertion: a sequence
  of single characters and dots, each with an optional quantifier. There a brace is an
  ordinary character unless it opens \<open>{n}\<close>, \<open>{n,}\<close> or \<open>{n,m}\<close>, which after an atom
  is a quantifier and in the place of an atom is a syntax error, as are \<open>*\<close>, \<open>+\<close>
  and \<open>?\<close> there.
\<close>

datatype atom = Literal char | Any_char

datatype piece = Piece atom nat "nat option" bool
  \<comment> \<open>the atom, the least and the greatest number of repetitions (\<open>None\<close>: unbounded),
      and whether the quantifier is greedy\<close>

definition is_digit :: "char \<Rightarrow> bool" where
  "is_digit c = (c \<in> set ''0123456789'')"

definition digit_value :: "char \<Rightarrow> nat" where
  "digit_value c = length (takeWhile (\<lambda>d. d \<noteq> c) ''0123456789'')"

definition decimal_value :: "string \<Rightarrow> nat" where
  "decimal_value ds = foldl (\<lambda>n d. 10 * n + digit_value d) 0 ds"

definition braced_quantifier :: "string \<Rightarrow> ((nat \<times> nat option) \<times> string) option" where
  \<comment> \<open>\<open>{n}\<close>, \<open>{n,}\<close> or \<open>{n,m}\<close> at the head of the text: the bounds and the text after it\<close>
  "braced_quantifier s =
     (case s of
        [] \<Rightarrow> None
      | c # r \<Rightarrow>
          (let ds = takeWhile is_digit r; r1 = dropWhile is_digit r
           in if c \<noteq> CHR ''{'' \<or> ds = [] then None
              else (case r1 of
                      [] \<Rightarrow> None
                    | e # r2 \<Rightarrow>
                        if e = CHR ''}'' then Some ((decimal_value ds, Some (decimal_value ds)), r2)
                        else if e \<noteq> CHR '','' then None
                        else (let ds2 = takeWhile is_digit r2; r3 = dropWhile is_digit r2
                              in (case r3 of
                                    [] \<Rightarrow> None
                                  | f # r4 \<Rightarrow>
                                      if f \<noteq> CHR ''}'' then None
                                      else if ds2 = [] then Some ((decimal_value ds, None), r4)
                                      else Some ((decimal_value ds, Some (decimal_value ds2)), r4))))))"

definition quantifier_prefix :: "string \<Rightarrow> ((nat \<times> nat option) \<times> string) option" where
  "quantifier_prefix s =
     (case s of
        [] \<Rightarrow> None
      | c # r \<Rightarrow>
          if c = CHR ''*'' then Some ((0, None), r)
          else if c = CHR ''+'' then Some ((1, None), r)
          else if c = CHR ''?'' then Some ((0, Some 1), r)
          else braced_quantifier s)"

function parse_pieces :: "string \<Rightarrow> piece list option" where
  \<comment> \<open>\<open>None\<close>: the source is not a pattern (SyntaxError)\<close>
  "parse_pieces [] = Some []"
| "parse_pieces (c # cs) =
     (if c \<in> set ''*+?'' \<or> braced_quantifier (c # cs) \<noteq> None then None
      else (let a = (if c = CHR ''.'' then Any_char else Literal c)
            in (case quantifier_prefix cs of
                  None \<Rightarrow> map_option (Cons (Piece a 1 (Some 1) True)) (parse_pieces cs)
                | Some ((lo, hi), r) \<Rightarrow>
                    if (case hi of None \<Rightarrow> False | Some h \<Rightarrow> h < lo) then None
                    else (case r of
                            [] \<Rightarrow> Some [Piece a lo hi True]
                          | d # r' \<Rightarrow>
                              if d = CHR ''?''
                              then map_option (Cons (Piece a lo hi False)) (parse_pieces r')
                              else map_option (Cons (Piece a lo hi True)) (parse_pieces (d # r'))))))"
  by pat_completeness auto
termination
proof -
  have braced: "length r < length s" if "braced_quantifier s = Some (q, r)" for s q r
  proof -
    have dw: "\<And>xs. length (dropWhile is_digit xs) \<le> length xs"
      by (rule length_dropWhile_le)
    from that obtain c t where s: "s = c # t"
      by (cases s) (auto simp: braced_quantifier_def)
    show ?thesis
    proof (cases "dropWhile is_digit t")
      case Nil
      have "braced_quantifier s = None"
        unfolding braced_quantifier_def s by (simp add: Nil Let_def)
      with that show ?thesis by simp
    next
      case (Cons e r2)
      have l2: "length r2 < length t"
        using dw [of t] Cons by simp
      show ?thesis
      proof (cases "e = CHR ''}''")
        case True
        have "braced_quantifier s = None \<or> r = r2"
          using that unfolding braced_quantifier_def s
          by (simp add: Cons True Let_def split: if_splits)
        with that l2 s show ?thesis by auto
      next
        case False
        show ?thesis
        proof (cases "dropWhile is_digit r2")
          case Nil
          have "braced_quantifier s = None"
            unfolding braced_quantifier_def s by (simp add: Cons Nil False Let_def)
          with that show ?thesis by simp
        next
          case inner: (Cons f r4)
          have "length r4 < length r2"
            using dw [of r2] inner by simp
          moreover have "braced_quantifier s = None \<or> r = r4"
            using that unfolding braced_quantifier_def s
            by (simp add: Cons inner False Let_def split: if_splits)
          ultimately show ?thesis
            using that l2 s by auto
        qed
      qed
    qed
  qed
  have shorter: "length r < length s" if "quantifier_prefix s = Some (q, r)" for s q r
    using that by (cases s) (auto simp: quantifier_prefix_def split: if_splits dest: braced)
  show ?thesis
    by (relation "measure length") (auto dest!: shorter)
qed

datatype compiled = Pattern "piece list" | Not_a_pattern | Not_modelled

fun group_depth :: "string \<Rightarrow> nat \<Rightarrow> nat option" where
  \<comment> \<open>the number of groups still open at the end, \<open>None\<close> when a \<open>)\<close> closes nothing\<close>
  "group_depth [] n = Some n"
| "group_depth (c # cs) n =
     (if c = CHR ''('' then group_depth cs (Suc n)
      else if c = CHR '')'' then (case n of 0 \<Rightarrow> None | Suc k \<Rightarrow> group_depth cs k)
      else group_depth cs n)"

definition new_RegExp :: "string \<Rightarrow> compiled" where
  \<comment> \<open>A source with an escape or a class is outside the model. Without them every
      parenthesis opens or closes a group, and a source whose groups do not balance is
      not a pattern; a source with groups that do, with an alternative or with an
      assertion is outside the model. The rest is parsed.\<close>
  "new_RegExp source =
     (if CHR 0x5C \<in> set source \<or> CHR ''['' \<in> set source then Not_modelled
      else if group_depth source 0 \<noteq> Some 0 then Not_a_pattern
      else if set source \<inter> set ''()|^$'' \<noteq> {} then Not_modelled
      else (case parse_pieces source of None \<Rightarrow> Not_a_pattern | Some ps \<Rightarrow> Pattern ps))"

section \<open>Matching and replacing a custom-data key\<close>

definition is_line_terminator :: "char \<Rightarrow> bool" where
  "is_line_terminator c = (c = CHR 0x0A \<or> c = CHR 0x0D)"

fun atom_matches :: "atom \<Rightarrow> char \<Rightarrow> bool" where
  "atom_matches (Literal c) x = (x = c)"
| "atom_matches Any_char x = (\<not> is_line_terminator x)"

fun first_some :: "'a option list \<Rightarrow> 'a option" where
  "first_some [] = None"
| "first_some (None # xs) = first_some xs"
| "first_some (Some x # xs) = Some x"

text \<open>
  A match of the pieces at the head of a text, as the backtracking matcher finds it: a
  greedy piece tries the largest number of repetitions first, a lazy one the smallest,
  and the first number with which the rest of the pattern matches is taken. An atom
  takes exactly one character, so the numbers to try are those between the least allowed
  and the length of the run of characters the atom accepts.
\<close>

fun match_pieces :: "piece list \<Rightarrow> string \<Rightarrow> nat option" where
  \<comment> \<open>the length of the match\<close>
  "match_pieces [] s = Some 0"
| "match_pieces (Piece a lo hi greedy # ps) s =
     (let run = length (takeWhile (atom_matches a) s);
          top = (case hi of None \<Rightarrow> run | Some h \<Rightarrow> min h run);
          counts = (if greedy then rev [lo ..< Suc top] else [lo ..< Suc top])
      in first_some (map (\<lambda>n. map_option (\<lambda>k. n + k) (match_pieces ps (drop n s))) counts))"

text \<open>
  \<open>result.replace(pattern, String(value))\<close> with the flag \<open>g\<close>: the matches are found
  from left to right in the text as it was, each search starting where the match before
  ended (one character further after an empty match), and each match is replaced by the
  expansion of the replacement string.
\<close>

function replace_matches :: "piece list \<Rightarrow> string \<Rightarrow> string \<Rightarrow> string \<Rightarrow> string" where
  \<comment> \<open>the pattern, the text already passed, the text still to search, the replacement\<close>
  "replace_matches ps passed [] replaceValue =
     (case match_pieces ps [] of
        None \<Rightarrow> []
      | Some n \<Rightarrow> getSubstitution [] passed [] replaceValue)"
| "replace_matches ps passed (c # cs) replaceValue =
     (case match_pieces ps (c # cs) of
        None \<Rightarrow> c # replace_matches ps (passed @ [c]) cs replaceValue
      | Some n \<Rightarrow>
          if n = 0
          then getSubstitution [] passed (c # cs) replaceValue
                 @ c # replace_matches ps (passed @ [c]) cs replaceValue
          else getSubstitution (take n (c # cs)) passed (drop n (c # cs)) replaceValue
                 @ replace_matches ps (passed @ take n (c # cs)) (drop n (c # cs)) replaceValue)"
  by pat_completeness auto
termination
  by (relation "measure (\<lambda>(ps, passed, s, r). length s)") auto

section \<open>Custom data and the two passes\<close>

text \<open>
  \<^verbatim>\<open>
    for (const [key, value] of Object.entries(data)) {
      const pattern = new RegExp(`{{${key}}}`, 'g');
      result = result.replace(pattern, String(value));
    }
  \<close>
  The values of the custom data are strings, numbers and booleans, and \<open>String(value)\<close>
  is what is inserted. The program does nothing with a number but convert it, and the
  conversion is the host's: a number is given by the text that \<open>String\<close> writes for it.
  The entries are listed in the order of \<open>Object.entries\<close>.
\<close>

datatype scalar = Str string | Num string | Bool bool

fun to_String :: "scalar \<Rightarrow> string" where
  "to_String (Str s) = s"
| "to_String (Num written) = written"
| "to_String (Bool b) = (if b then ''true'' else ''false'')"

fun replaceCustomData :: "string \<Rightarrow> (string \<times> scalar) list \<Rightarrow> string outcome" where
  "replaceCustomData result [] = Returns result"
| "replaceCustomData result ((key, v) # entries) =
     (case new_RegExp (''{{'' @ key @ ''}}'') of
        Not_a_pattern \<Rightarrow> Throws SyntaxError
      | Not_modelled \<Rightarrow> Outside_model
      | Pattern pattern \<Rightarrow>
          replaceCustomData (replace_matches pattern [] result (to_String v)) entries)"

definition process ::
  "registry \<Rightarrow> string \<Rightarrow> (string \<times> scalar) list \<Rightarrow> (string \<times> diagnostic list) outcome" where
  "process markers text customData =
     (case replaceCustomData text customData of
        Returns result \<Rightarrow> replaceBuiltInMarkers markers result
      | Throws e \<Rightarrow> Throws e
      | Outside_model \<Rightarrow> Outside_model)"

section \<open>Notions for the properties\<close>

definition first_colon_parse :: "string \<Rightarrow> string \<times> string list" where
  \<comment> \<open>The parse as the specification words it: the name is the trimmed text before the
      first colon; the text after that colon, whenever there is a colon, is split at the
      commas into trimmed parameters; without a colon there is no parameter.\<close>
  "first_colon_parse content =
     (trim (takeWhile (\<lambda>c. c \<noteq> CHR '':'') content),
      if CHR '':'' \<in> set content
      then map trim (split_on CHR '','' (drop 1 (dropWhile (\<lambda>c. c \<noteq> CHR '':'') content)))
      else [])"

definition marker_text :: "string \<Rightarrow> string" where
  \<comment> \<open>the text of a marker with the given content\<close>
  "marker_text content = ''{{'' @ content @ ''}}''"

definition lower_letters :: string where
  "lower_letters = ''abcdefghijklmnopqrstuvwxyz''"

definition upper_letters :: string where
  "upper_letters = ''ABCDEFGHIJKLMNOPQRSTUVWXYZ''"

definition ascii_upper :: "char \<Rightarrow> char" where
  "ascii_upper c = (case map_of (zip lower_letters upper_letters) c of Some u \<Rightarrow> u | None \<Rightarrow> c)"

definition ascii_lower :: "char \<Rightarrow> char" where
  "ascii_lower c = (case map_of (zip upper_letters lower_letters) c of Some l \<Rightarrow> l | None \<Rightarrow> c)"

definition example_host :: host where
  \<comment> \<open>A host for the examples, all of which are ASCII text: its clock stands in the year
      2026, and its case mappings are those that every host has on ASCII text.\<close>
  "example_host =
     \<lparr>native = (\<lambda>name params. Inr ''2026''),
      toUpperCase = map ascii_upper,
      toLowerCase = map ascii_lower\<rparr>"

text \<open>
  A key is plain when none of its characters is a syntax character of the pattern
  language and the key does not complete a quantifier with the braces around it, which
  it does when it is a number, a number and a comma, or two numbers with a comma between
  them. The pattern of a plain key is the sequence of its characters between the braces,
  each to be matched once.
\<close>

definition syntax_character :: "char \<Rightarrow> bool" where
  \<comment> \<open>the backslash and \<open>^ $ . * + ? ( ) [ ] { } |\<close>\<close>
  "syntax_character c = (c \<in> set (CHR 0x5C # ''^$.*+?()[]{}|''))"

definition plain_key :: "string \<Rightarrow> bool" where
  "plain_key key =
     (list_all (\<lambda>c. \<not> syntax_character c) key \<and>
      braced_quantifier (CHR ''{'' # key @ ''}}'') = None)"

definition literal_piece :: "char \<Rightarrow> piece" where
  \<comment> \<open>the character \<open>c\<close>, to be matched once\<close>
  "literal_piece c = Piece (Literal c) 1 (Some 1) True"

fun literal_source :: "string \<Rightarrow> bool" where
  \<comment> \<open>a source in which no character is a dot or a quantifier and no brace opens one\<close>
  "literal_source [] = True"
| "literal_source (c # cs) =
     (c \<notin> set ''.*+?'' \<and> braced_quantifier (c # cs) = None \<and> literal_source cs)"

text \<open>
  The replacement that the specification describes for a key: every occurrence of a text,
  found from left to right, is replaced by another text, which is inserted as it
  stands.
\<close>

function replace_every :: "string \<Rightarrow> string \<Rightarrow> string \<Rightarrow> string" where
  \<comment> \<open>every occurrence of the text \<open>p\<close>, found from left to right, replaced by \<open>v\<close>\<close>
  "replace_every p v [] = []"
| "replace_every p v (c # cs) =
     (if p \<noteq> [] \<and> starts_with p (c # cs) then v @ replace_every p v (drop (length p) (c # cs))
      else c # replace_every p v cs)"
  by pat_completeness auto
termination
  by (relation "measure (\<lambda>(p, v, s). length s)") auto















definition first_parameter :: "string \<Rightarrow> string" where
  \<comment> \<open>the text before the first comma, without the white space around it\<close>
  "first_parameter t = trim (takeWhile (\<lambda>c. c \<noteq> CHR '','') t)"



section \<open>Properties of the marker syntax\<close>

lemma split_on_not_Nil: "split_on sep s \<noteq> []"
  by (induction s) (auto split: list.splits)

lemma join_with_Cons: "join_with sep ((c # p) # ps) = c # join_with sep (p # ps)"
  by (cases ps) simp_all

lemma join_with_split_on: "join_with sep (split_on sep s) = s"
proof (induction s)
  case Nil
  show ?case by simp
next
  case (Cons c cs)
  obtain p ps where sp: "split_on sep cs = p # ps"
    using split_on_not_Nil [of sep cs] by (cases "split_on sep cs") auto
  show ?case
  proof (cases "c = sep")
    case True
    with Cons sp show ?thesis by simp
  next
    case False
    with Cons sp show ?thesis by (simp add: join_with_Cons)
  qed
qed

lemma hd_split_on: "hd (split_on sep s) = takeWhile (\<lambda>c. c \<noteq> sep) s"
  by (induction s) (auto split: list.splits simp: split_on_not_Nil)

lemma tl_split_on:
  "join_with sep (tl (split_on sep s)) = drop 1 (dropWhile (\<lambda>c. c \<noteq> sep) s)"
  by (induction s) (auto split: list.splits simp: split_on_not_Nil join_with_split_on)

lemma parse_marker_parts:
  "parse_marker content =
     (trim (takeWhile (\<lambda>c. c \<noteq> CHR '':'') content),
      if drop 1 (dropWhile (\<lambda>c. c \<noteq> CHR '':'') content) = [] then []
      else map trim (split_on CHR '','' (drop 1 (dropWhile (\<lambda>c. c \<noteq> CHR '':'') content))))"
  by (simp add: parse_marker_def Let_def hd_split_on tl_split_on)

text \<open>
  Claim C6, as amended. For every marker content the name is the trimmed text before the
  first colon, and the later colons stay in the parameter text. When the text after the
  first colon is not empty it is split at the commas into the trimmed parameters, in
  order; when there is no colon, or nothing after the first colon, there is no
  parameter.
\<close>

theorem parse_marker_first_colon:
  "parse_marker content =
     (trim (takeWhile (\<lambda>c. c \<noteq> CHR '':'') content),
      if drop 1 (dropWhile (\<lambda>c. c \<noteq> CHR '':'') content) = [] then []
      else map trim (split_on CHR '','' (drop 1 (dropWhile (\<lambda>c. c \<noteq> CHR '':'') content))))"
  by (rule parse_marker_parts)

text \<open>
  Claim C6 as it was stated splits whatever follows the first colon, which for the
  content \<open>m:\<close> is the empty text and would give one empty parameter. The program gives
  none.
\<close>

theorem parse_marker_empty_parameters:
  "parse_marker ''m:'' = (''m'', []) \<and> first_colon_parse ''m:'' = (''m'', [[]])"
  by (simp add: parse_marker_def first_colon_parse_def trim_def is_white_def)

section \<open>Keys that are read as they are written\<close>

lemma braced_quantifier_head:
  "c \<noteq> CHR ''{'' \<Longrightarrow> braced_quantifier (c # cs) = None"
  by (simp add: braced_quantifier_def Let_def)

lemma quantifier_prefix_literal:
  "literal_source cs \<Longrightarrow> quantifier_prefix cs = None"
  by (cases cs) (auto simp: quantifier_prefix_def)

lemma parse_pieces_literal:
  "literal_source s \<Longrightarrow> parse_pieces s = Some (map literal_piece s)"
proof (induction s)
  case Nil
  show ?case by simp
next
  case (Cons c cs)
  then have q: "quantifier_prefix cs = None" and cs: "parse_pieces cs = Some (map literal_piece cs)"
    by (simp_all add: quantifier_prefix_literal)
  from Cons.prems have c: "c \<noteq> CHR ''.''" "c \<noteq> CHR ''*''" "c \<noteq> CHR ''+''" "c \<noteq> CHR ''?''"
    and b: "braced_quantifier (c # cs) = None"
    by auto
  show ?case
    by (simp add: c b q cs literal_piece_def del: literal_source.simps)
qed

lemma literal_source_plain:
  "list_all (\<lambda>c. \<not> syntax_character c) s \<Longrightarrow> literal_source t \<Longrightarrow> literal_source (s @ t)"
  by (induction s) (auto simp: syntax_character_def braced_quantifier_head)

lemma literal_source_key:
  assumes "plain_key key"
  shows "literal_source (''{{'' @ key @ ''}}'')"
proof -
  have tail: "literal_source ''}}''"
    by (simp add: braced_quantifier_head)
  from assms have "literal_source (key @ ''}}'')"
    by (simp add: plain_key_def literal_source_plain tail del: literal_source.simps)
  moreover from assms have "braced_quantifier (CHR ''{'' # key @ ''}}'') = None"
    by (simp add: plain_key_def)
  moreover have "braced_quantifier (CHR ''{'' # CHR ''{'' # key @ ''}}'') = None"
    by (simp add: braced_quantifier_def Let_def is_digit_def)
  ultimately show ?thesis by simp
qed

lemma group_depth_none:
  "CHR ''('' \<notin> set s \<Longrightarrow> CHR '')'' \<notin> set s \<Longrightarrow> group_depth s n = Some n"
  by (induction s arbitrary: n) auto

lemma plain_key_chars:
  "plain_key key \<Longrightarrow> c \<in> set (''{{'' @ key @ ''}}'') \<Longrightarrow> c \<notin> set (CHR 0x5C # ''[()|^$'')"
  by (auto simp: plain_key_def list_all_iff syntax_character_def)

lemma new_RegExp_plain:
  assumes "plain_key key"
  shows "new_RegExp (''{{'' @ key @ ''}}'') = Pattern (map literal_piece (''{{'' @ key @ ''}}''))"
proof -
  let ?src = "''{{'' @ key @ ''}}''"
  have no: "\<And>c. c \<in> set ?src \<Longrightarrow> c \<notin> set (CHR 0x5C # ''[()|^$'')"
    using assms by (rule plain_key_chars)
  have 1: "CHR 0x5C \<notin> set ?src" "CHR ''['' \<notin> set ?src" "CHR ''('' \<notin> set ?src" "CHR '')'' \<notin> set ?src"
    using no by fastforce+
  have 2: "group_depth ?src 0 = Some 0"
    using 1 by (intro group_depth_none)
  have 3: "set ?src \<inter> set ''()|^$'' = {}"
    using no by fastforce
  have 4: "parse_pieces ?src = Some (map literal_piece ?src)"
    using assms by (intro parse_pieces_literal literal_source_key)
  show ?thesis
    unfolding new_RegExp_def using 1 2 3 4 by simp
qed



section \<open>Literal patterns and texts without braces\<close>

lemma starts_with_append: "starts_with p (p @ r)"
  by (induction p) auto

lemma starts_with_head: "c \<noteq> d \<Longrightarrow> \<not> starts_with (d # p) (c # s)"
  by simp

lemma match_pieces_literal:
  "match_pieces (map literal_piece p) s = (if starts_with p s then Some (length p) else None)"
proof (induction p arbitrary: s)
  case Nil
  show ?case by simp
next
  case (Cons c p)
  show ?case
  proof (cases s)
    case Nil
    then show ?thesis by (simp add: literal_piece_def)
  next
    case (Cons x xs)
    show ?thesis
    proof (cases "x = c")
      case True
      have run: "min (Suc 0) (length (takeWhile (\<lambda>y. y = c) (c # xs))) = Suc 0"
        by simp
      show ?thesis
        using Cons True Cons.IH [of xs]
        by (simp add: literal_piece_def Let_def)
    next
      case False
      then show ?thesis
        using Cons by (simp add: literal_piece_def Let_def)
    qed
  qed
qed

lemma getSubstitution_plain:
  "CHR ''$'' \<notin> set v \<Longrightarrow> getSubstitution m b a v = v"
  by (induction m b a v rule: getSubstitution.induct) auto

lemma replace_matches_skip:
  assumes "d \<notin> set pre"
  shows "replace_matches (map literal_piece (d # p)) passed (pre @ s) v =
         pre @ replace_matches (map literal_piece (d # p)) (passed @ pre) s v"
  using assms
proof (induction pre arbitrary: passed)
  case Nil
  show ?case by simp
next
  case (Cons c pre)
  then have "c \<noteq> d" by auto
  then have "match_pieces (map literal_piece (d # p)) (c # pre @ s) = None"
    unfolding match_pieces_literal by simp
  with Cons show ?case by simp
qed

lemma replace_matches_none:
  assumes "d \<notin> set s"
  shows "replace_matches (map literal_piece (d # p)) passed s v = s"
proof -
  have "match_pieces (map literal_piece (d # p)) [] = None"
    unfolding match_pieces_literal by simp
  then have "replace_matches (map literal_piece (d # p)) (passed @ s) [] v = []"
    by simp
  with replace_matches_skip [OF assms, of p passed "[]" v] show ?thesis by simp
qed

lemma replace_matches_here:
  "replace_matches (map literal_piece (d # p)) passed ((d # p) @ s) v =
     getSubstitution (d # p) passed s v
       @ replace_matches (map literal_piece (d # p)) (passed @ d # p) s v"
proof -
  have "match_pieces (map literal_piece (d # p)) ((d # p) @ s) = Some (length (d # p))"
    unfolding match_pieces_literal using starts_with_append [of "d # p" s] by simp
  then show ?thesis by simp
qed



lemma match_marker_here_head:
  "c \<noteq> CHR ''{'' \<Longrightarrow> match_marker_here (c # s) = None"
  by (simp add: match_marker_here_def split: list.splits)

lemma match_marker_here_marker:
  assumes "content \<noteq> []" and "CHR ''}'' \<notin> set content"
  shows "match_marker_here (marker_text content @ rest) = Some (content, rest)"
proof -
  have tw: "takeWhile (\<lambda>x. x \<noteq> CHR ''}'') (content @ ''}}'' @ rest) = content"
    using assms(2) by (subst takeWhile_append2) auto
  have dw: "dropWhile (\<lambda>x. x \<noteq> CHR ''}'') (content @ ''}}'' @ rest) = ''}}'' @ rest"
    using assms(2) by (subst dropWhile_append2) auto
  show ?thesis
    using assms(1) tw dw by (simp add: match_marker_here_def marker_text_def)
qed

lemma matchAll_markers_skip:
  "CHR ''{'' \<notin> set pre \<Longrightarrow> matchAll_markers (pre @ s) = matchAll_markers s"
  by (induction pre) (auto simp: match_marker_here_head)

lemma matchAll_markers_none:
  "CHR ''{'' \<notin> set s \<Longrightarrow> matchAll_markers s = []"
  using matchAll_markers_skip [of s "[]"] by simp

lemma matchAll_markers_marker:
  assumes "content \<noteq> []" and "CHR ''}'' \<notin> set content"
  shows "matchAll_markers (marker_text content @ rest) =
         (marker_text content, content) # matchAll_markers rest"
proof -
  obtain c cs where cs: "marker_text content @ rest = c # cs"
    by (simp add: marker_text_def)
  have "match_marker_here (c # cs) = Some (content, rest)"
    using match_marker_here_marker [OF assms, of rest] cs by simp
  then have "matchAll_markers (c # cs) = (marker_text content, content) # matchAll_markers rest"
    by (simp add: marker_text_def)
  with cs show ?thesis by simp
qed

lemma split_at_first_skip:
  assumes "d \<notin> set pre"
  shows "split_at_first (d # m) (pre @ (d # m) @ rest) = Some (pre, rest)"
  using assms
proof (induction pre)
  case Nil
  have "starts_with (d # m) ((d # m) @ rest)"
    by (rule starts_with_append)
  then show ?case by simp
next
  case (Cons c pre)
  then show ?case by auto
qed

lemma string_replace_first:
  assumes "CHR ''{'' \<notin> set pre" and "CHR ''$'' \<notin> set v"
  shows "string_replace (pre @ marker_text content @ rest) (marker_text content) v = pre @ v @ rest"
proof -
  have "split_at_first (marker_text content) (pre @ marker_text content @ rest) = Some (pre, rest)"
    using split_at_first_skip [OF assms(1), of "CHR ''{'' # content @ ''}}''" rest]
    by (simp add: marker_text_def)
  then show ?thesis
    by (simp add: string_replace_def getSubstitution_plain [OF assms(2)])
qed



lemma replaceCustomData_plain:
  assumes "plain_key k"
  shows "replaceCustomData input ((k, v) # entries) =
         replaceCustomData
           (replace_matches (map literal_piece (marker_text k)) [] input (to_String v)) entries"
  using new_RegExp_plain [OF assms] by (simp add: marker_text_def)

lemma replace_matches_marker:
  assumes "CHR ''{'' \<notin> set pre" and "CHR ''{'' \<notin> set post" and "CHR ''$'' \<notin> set v"
  shows "replace_matches (map literal_piece (marker_text k)) [] (pre @ marker_text k @ post) v =
         pre @ v @ post"
proof -
  obtain p where p: "marker_text k = CHR ''{'' # p"
    by (simp add: marker_text_def)
  have "replace_matches (map literal_piece (CHR ''{'' # p)) [] (pre @ (CHR ''{'' # p) @ post) v =
        pre @ replace_matches (map literal_piece (CHR ''{'' # p)) ([] @ pre) ((CHR ''{'' # p) @ post) v"
    using assms(1) by (rule replace_matches_skip)
  also have "replace_matches (map literal_piece (CHR ''{'' # p)) ([] @ pre) ((CHR ''{'' # p) @ post) v =
        getSubstitution (CHR ''{'' # p) ([] @ pre) post v
          @ replace_matches (map literal_piece (CHR ''{'' # p)) (([] @ pre) @ CHR ''{'' # p) post v"
    by (rule replace_matches_here)
  also have "getSubstitution (CHR ''{'' # p) ([] @ pre) post v = v"
    using assms(3) by (rule getSubstitution_plain)
  also have "replace_matches (map literal_piece (CHR ''{'' # p)) (([] @ pre) @ CHR ''{'' # p) post v = post"
    using assms(2) by (rule replace_matches_none)
  finally show ?thesis
    by (simp add: p)
qed

lemma replaceBuiltInMarkers_no_marker:
  "CHR ''{'' \<notin> set text \<Longrightarrow> replaceBuiltInMarkers markers text = Returns (text, [])"
  by (simp add: replaceBuiltInMarkers_def matchAll_markers_none)

section \<open>Replacing a key in a template\<close>

lemma starts_with_take: "starts_with p s \<Longrightarrow> take (length p) s = p"
  by (induction p s rule: starts_with.induct) auto














lemma replace_matches_literal:
  assumes "CHR ''$'' \<notin> set v"
  shows "replace_matches (map literal_piece (d # p)) passed s v = replace_every (d # p) v s"
  using assms
proof (induction "d # p" v s arbitrary: passed rule: replace_every.induct)
  case (1 v)
  have "match_pieces (map literal_piece (d # p)) [] = None"
    unfolding match_pieces_literal by simp
  then show ?case by simp
next
  case (2 v c cs)
  show ?case
  proof (cases "starts_with (d # p) (c # cs)")
    case True
    then have m: "match_pieces (map literal_piece (d # p)) (c # cs) = Some (length (d # p))"
      unfolding match_pieces_literal by simp
    have t: "take (length (d # p)) (c # cs) = d # p"
      using True by (rule starts_with_take)
    have g: "getSubstitution (d # p) passed (drop (length (d # p)) (c # cs)) v = v"
      using "2.prems" by (rule getSubstitution_plain)
    have ih: "replace_matches (map literal_piece (d # p)) (passed @ d # p)
                (drop (length (d # p)) (c # cs)) v =
              replace_every (d # p) v (drop (length (d # p)) (c # cs))"
      using True "2.prems" by (intro "2.hyps"(1)) simp_all
    have "replace_matches (map literal_piece (d # p)) passed (c # cs) v =
          getSubstitution (take (length (d # p)) (c # cs)) passed (drop (length (d # p)) (c # cs)) v
            @ replace_matches (map literal_piece (d # p)) (passed @ take (length (d # p)) (c # cs))
                (drop (length (d # p)) (c # cs)) v"
      using m by (simp del: match_pieces.simps take_Suc_Cons drop_Suc_Cons list.map)
    also have "\<dots> = v @ replace_every (d # p) v (drop (length (d # p)) (c # cs))"
      unfolding t g ih ..
    also have "\<dots> = replace_every (d # p) v (c # cs)"
      using True by (simp del: drop_Suc_Cons)
    finally show ?thesis .
  next
    case False
    then have "match_pieces (map literal_piece (d # p)) (c # cs) = None"
      unfolding match_pieces_literal by simp
    moreover have "replace_matches (map literal_piece (d # p)) (passed @ [c]) cs v =
        replace_every (d # p) v cs"
      using False "2.prems" by (intro "2.hyps"(2)) simp_all
    moreover have "replace_every (d # p) v (c # cs) = c # replace_every (d # p) v cs"
      using False by auto
    ultimately show ?thesis
      by (simp del: match_pieces.simps replace_every.simps list.map)
  qed
qed

lemma replaceCustomData_literal:
  assumes "plain_key k" and "CHR ''$'' \<notin> set (to_String v)"
  shows "replaceCustomData input [(k, v)] =
         Returns (replace_every (marker_text k) (to_String v) input)"
proof -
  obtain p where p: "marker_text k = CHR ''{'' # p"
    by (simp add: marker_text_def)
  have "replaceCustomData input [(k, v)] =
        replaceCustomData (replace_matches (map literal_piece (marker_text k)) [] input (to_String v)) []"
    using assms(1) by (rule replaceCustomData_plain)
  also have "replace_matches (map literal_piece (marker_text k)) [] input (to_String v) =
        replace_every (marker_text k) (to_String v) input"
    unfolding p using assms(2) by (rule replace_matches_literal)
  finally show ?thesis by simp
qed










section \<open>The pass over the markers of a template\<close>





section \<open>Markers and keys inside custom values\<close>




text \<open>
  The marker in the value has to be found and its function has to return: a marker
  whose function throws stays in the output as the value holds it, and so does a marker
  that follows an opening brace in the value.
\<close>

lemma failing_marker_in_value:
  "process (getBuiltInMarkers h) ''{{k}}'' [(''k'', Str ''{{capitalize}}'')] =
     Returns (''{{capitalize}}'', [(''{{capitalize}}'', Host_message (Reads_undefined ''charAt''))])"
  by code_simp

lemma marker_behind_brace_in_value:
  "process (getBuiltInMarkers example_host) ''{{k}}'' [(''k'', Str ''{{{upper:a}}'')] =
     Returns (''{{{upper:a}}'', [])"
  by code_simp

section \<open>The marker \<open>capitalize\<close>\<close>

lemma params_capitalize:
  assumes "t \<noteq> []"
  shows "parse_marker (''capitalize:'' @ t) =
         (''capitalize'', first_parameter t # map trim (tl (split_on CHR '','' t)))"
proof -
  obtain p ps where sp: "split_on CHR '','' t = p # ps"
    using split_on_not_Nil [of "CHR '',''" t] by (cases "split_on CHR '','' t") auto
  then have "p = takeWhile (\<lambda>c. c \<noteq> CHR '','') t"
    using hd_split_on [of "CHR '',''" t] by simp
  with sp assms show ?thesis
    by (simp add: parse_marker_parts trim_def is_white_def first_parameter_def)
qed

text \<open>
  Claim C9, as amended. For every parameter text \<open>t\<close> that is not empty and has no
  \<open>}\<close>, the text \<open>{{capitalize:t}}\<close> is resolved to the part of \<open>t\<close> before its first
  comma, without the white space around it, its first character in upper case and the
  rest in lower case, provided that this result has no \<open>$\<close>. The text
  \<open>{{capitalize:}}\<close> is not resolved: the function is called without an argument, what
  it throws is caught and logged, and the marker stays as it is.
\<close>

theorem capitalize_marker:
  assumes "t \<noteq> []" and "CHR ''}'' \<notin> set t"
    and "CHR ''$'' \<notin> set (toUpperCase h (take 1 (first_parameter t))
                              @ toLowerCase h (drop 1 (first_parameter t)))"
  shows "process (getBuiltInMarkers h) (marker_text (''capitalize:'' @ t)) [] =
           Returns (toUpperCase h (take 1 (first_parameter t))
                      @ toLowerCase h (drop 1 (first_parameter t)), [])
       \<and> process (getBuiltInMarkers h) (marker_text ''capitalize:'') [] =
           Returns (marker_text ''capitalize:'',
                    [(marker_text ''capitalize:'', Host_message (Reads_undefined ''charAt''))])"
proof
  let ?content = "''capitalize:'' @ t"
  let ?v = "toUpperCase h (take 1 (first_parameter t)) @ toLowerCase h (drop 1 (first_parameter t))"
  have content: "?content \<noteq> []" "CHR ''}'' \<notin> set ?content"
    using assms(2) by simp_all
  have "matchAll_markers (marker_text ?content @ []) =
        (marker_text ?content, ?content) # matchAll_markers []"
    using content by (rule matchAll_markers_marker)
  then have found: "matchAll_markers (marker_text ?content) = [(marker_text ?content, ?content)]"
    by simp
  have parsed: "parse_marker ?content =
      (''capitalize'', first_parameter t # map trim (tl (split_on CHR '','' t)))"
    using assms(1) by (rule params_capitalize)
  have fn: "get_marker (getBuiltInMarkers h) ''capitalize'' = Some (capitalize h)"
    by (simp add: get_marker_def getBuiltInMarkers_def builtin_entries_def)
  have call: "capitalize h (first_parameter t # map trim (tl (split_on CHR '','' t))) = Inr ?v"
    by (simp add: capitalize_def)
  have "string_replace ([] @ marker_text ?content @ []) (marker_text ?content) ?v = [] @ ?v @ []"
    using assms(3) by (intro string_replace_first) simp_all
  then have replaced: "string_replace (marker_text ?content) (marker_text ?content) ?v = ?v"
    by simp
  have "replaceBuiltInMarkers (getBuiltInMarkers h) (marker_text ?content) = Returns (?v, [])"
    unfolding replaceBuiltInMarkers_def found
    by (simp only: marker_loop.simps parsed fst_conv snd_conv fn call replaced option.case sum.case)
  then show "process (getBuiltInMarkers h) (marker_text ?content) [] = Returns (?v, [])"
    by (simp add: process_def)
next
  show "process (getBuiltInMarkers h) (marker_text ''capitalize:'') [] =
      Returns (marker_text ''capitalize:'',
               [(marker_text ''capitalize:'', Host_message (Reads_undefined ''charAt''))])"
    by code_simp
qed

theorem capitalize_marker_witness:
  "process (getBuiltInMarkers example_host) ''{{capitalize:hello world}}'' [] =
     Returns (''Hello world'', [])
   \<and> process (getBuiltInMarkers example_host) ''{{capitalize:}}'' [] =
     Returns (''{{capitalize:}}'', [(''{{capitalize:}}'', Host_message (Reads_undefined ''charAt''))])"
proof -
  have 1: "''hello world'' \<noteq> []" and 2: "CHR ''}'' \<notin> set ''hello world''"
    by simp_all
  have v: "toUpperCase example_host (take 1 (first_parameter ''hello world''))
      @ toLowerCase example_host (drop 1 (first_parameter ''hello world'')) = ''Hello world''"
    by code_simp
  have 3: "CHR ''$'' \<notin> set (toUpperCase example_host (take 1 (first_parameter ''hello world''))
      @ toLowerCase example_host (drop 1 (first_parameter ''hello world'')))"
    unfolding v by simp
  have a: "marker_text (''capitalize:'' @ ''hello world'') = ''{{capitalize:hello world}}''"
    and b: "marker_text ''capitalize:'' = ''{{capitalize:}}''"
    by (simp_all add: marker_text_def)
  show ?thesis
    using capitalize_marker [OF 1 2 3] unfolding v a b .
qed

text \<open>
  Claim C9 as it was stated has the empty string put in the place of
  \<open>{{capitalize:}}\<close>. The output is the marker itself.
\<close>

theorem capitalize_without_text:
  "process (getBuiltInMarkers example_host) ''{{capitalize:}}'' [] =
     Returns (''{{capitalize:}}'', [(''{{capitalize:}}'', Host_message (Reads_undefined ''charAt''))])
   \<and> process (getBuiltInMarkers example_host) ''{{capitalize:}}'' [] \<noteq> Returns ([], [])"
  by code_simp

text \<open>
  A comma ends the parameter of \<open>capitalize\<close>: the function reads its first parameter
  only.
\<close>

lemma capitalize_first_parameter:
  "process (getBuiltInMarkers example_host) ''{{capitalize: hello, WORLD }}'' [] =
     Returns (''Hello'', [])"
  by code_simp

section \<open>Keys and values that are not read as they are written\<close>

text \<open>
  With plain keys, and marker functions that throw neither \<open>null\<close> nor \<open>undefined\<close>,
  \<open>process\<close> returns.
\<close>

lemma marker_loop_returns:
  assumes "\<And>name f params. get_marker markers name = Some f \<Longrightarrow> f params \<noteq> Inl Raised_nullish"
  shows "\<exists>r. marker_loop markers matches result logged = Returns r"
proof (induction matches arbitrary: result logged)
  case Nil
  show ?case by simp
next
  case (Cons m matches)
  obtain full content where m: "m = (full, content)"
    by (cases m)
  show ?case
  proof (cases "get_marker markers (fst (parse_marker content))")
    case None
    with Cons m show ?thesis by simp
  next
    case (Some f)
    show ?thesis
    proof (cases "f (snd (parse_marker content))")
      case (Inr replacement)
      with Cons Some m show ?thesis by simp
    next
      case (Inl e)
      have "f (snd (parse_marker content)) \<noteq> Inl Raised_nullish"
        using Some by (rule assms)
      with Inl obtain message where "e = Raised message"
        by (cases e) auto
      with Cons Some m Inl show ?thesis by simp
    qed
  qed
qed

lemma replaceCustomData_returns:
  "list_all (\<lambda>kv. plain_key (fst kv)) customData \<Longrightarrow>
   \<exists>r. replaceCustomData input customData = Returns r"
proof (induction customData arbitrary: input)
  case Nil
  show ?case by simp
next
  case (Cons kv customData)
  obtain k v where kv: "kv = (k, v)"
    by (cases kv)
  with Cons.prems have "plain_key k"
    by simp
  then have "replaceCustomData input ((k, v) # customData) =
      replaceCustomData (replace_matches (map literal_piece (marker_text k)) [] input (to_String v))
        customData"
    by (rule replaceCustomData_plain)
  with Cons kv show ?case by simp
qed

lemma process_returns:
  assumes "list_all (\<lambda>kv. plain_key (fst kv)) customData"
    and "\<And>name f params. get_marker markers name = Some f \<Longrightarrow> f params \<noteq> Inl Raised_nullish"
  shows "\<exists>r. process markers text customData = Returns r"
proof -
  obtain t where "replaceCustomData text customData = Returns t"
    using replaceCustomData_returns [OF assms(1)] by blast
  moreover have "\<exists>r. marker_loop markers (matchAll_markers t) t [] = Returns r"
    by (rule marker_loop_returns) (rule assms(2))
  ultimately show ?thesis
    by (simp add: process_def replaceBuiltInMarkers_def)
qed

text \<open>
  Claim C1. A key with an open group is not a pattern: \<open>new RegExp\<close> throws a
  SyntaxError, nothing in \<open>replaceCustomData\<close> or \<open>process\<close> catches it, and \<open>process\<close>
  does not return.
\<close>

theorem key_with_open_group_throws:
  "process markers ''hello'' [(''('', Str ''x'')] = Throws SyntaxError"
  by (simp add: process_def new_RegExp_def)

text \<open>
  Claim C2. The key is the source of a pattern: the dot of the key \<open>a.c\<close> matches any
  character, so the text \<open>{{abc}}\<close>, which is not the key between braces, is replaced.
\<close>

theorem key_dot_matches_other_text:
  "process markers ''{{abc}}'' [(''a.c'', Str ''X'')] = Returns (''X'', [])"
  by code_simp

text \<open>
  A key that is a number completes a quantifier: the pattern of the key \<open>1\<close> is one
  opening brace and one closing brace.
\<close>

lemma digits_key_is_quantifier:
  "process (getBuiltInMarkers host) ''{{1}} and {}'' [(''1'', Str ''X'')] =
     Returns (''{{1}} and X'', [])"
  by code_simp

text \<open>
  Claim C3. The value is a replacement template: \<open>$&\<close> in it stands for the matched
  text, so the value \<open>$&\<close> puts the marker back where it was.
\<close>

theorem value_dollar_ampersand_expanded:
  "process (getBuiltInMarkers host) ''{{k}}'' [(''k'', Str ''$&'')] = Returns (''{{k}}'', [])"
  by code_simp

text \<open>
  Claim C4. The custom data are substituted first, but the key is read as a pattern: the
  key \<open>a+\<close> matches \<open>{{a}}\<close>, \<open>{{aa}}\<close> and so on, and not the text \<open>{{a+}}\<close>. With a
  marker registered under the name \<open>a+\<close>, it is the marker that resolves \<open>{{a+}}\<close>,
  and the custom data do not win.
\<close>

theorem marker_wins_over_pattern_key:
  "process (map_of [(''a+'', constant_marker ''B'')]) (marker_text ''a+'') [(''a+'', Str ''A'')]
     = Returns (''B'', [])
   \<and> process (map_of [(''a+'', constant_marker ''B'')]) (marker_text ''a+'') [(''a+'', Str ''A'')]
     \<noteq> Returns (''A'', [])"
  by code_simp

section \<open>Replacements that land elsewhere\<close>

text \<open>
  Claim C5. Each match is retired by replacing the first occurrence of its text in the
  current result, which need not be the occurrence that was matched. When the marker
  \<open>m\<close> returns \<open>x{{m}}\<close>, the second match of \<open>{{m}}{{m}}\<close> is spent on the text the
  first one inserted, and the second occurrence is left unresolved.
\<close>

theorem replacement_with_marker_text:
  "process (map_of [(''m'', constant_marker ''x{{m}}'')]) ''{{m}}{{m}}'' [] =
     Returns (''xx{{m}}{{m}}'', [])
   \<and> process (map_of [(''m'', constant_marker ''x{{m}}'')]) ''{{m}}{{m}}'' [] \<noteq>
     Returns (''x{{m}}x{{m}}'', [])"
  by code_simp

text \<open>
  The same happens without any marker text in what is returned: after an opening brace
  the text \<open>{{m}}\<close> is no match of its own, yet it is the first occurrence of the
  marker text, and it is replaced in the place of the occurrence that was matched.
\<close>

lemma other_text_replaced:
  "process (map_of [(''m'', constant_marker ''v'')]) ''{{{m}} {{m}}'' [] =
     Returns (''{v {{m}}'', [])"
  by code_simp

section \<open>Names and failures the loop does not expect\<close>

text \<open>
  A name that the lookup does not find leaves the result as it is, and so does a function
  that throws a value other than \<open>null\<close> and \<open>undefined\<close>, which is logged; the loop
  goes on with the matches that remain.
\<close>

lemma unknown_marker_skipped:
  assumes "get_marker markers (fst (parse_marker content)) = None"
  shows "marker_loop markers ((full, content) # matches) result logged =
         marker_loop markers matches result logged"
  using assms by simp

lemma raising_marker_logged:
  assumes "get_marker markers (fst (parse_marker content)) = Some f"
    and "f (snd (parse_marker content)) = Inl (Raised message)"
  shows "marker_loop markers ((full, content) # matches) result logged =
         marker_loop markers matches result (logged @ [(full, message)])"
  using assms by simp

lemma unknown_marker_left:
  "process (getBuiltInMarkers host) ''{{totally_unknown_xyz}}'' [] =
     Returns (''{{totally_unknown_xyz}}'', [])"
  by code_simp

text \<open>
  Claim C7. The name \<open>toString\<close> is no marker of the registry, yet the lookup finds the
  function that every object inherits, and the marker is replaced by what it returns.
\<close>

theorem inherited_name_resolved:
  "process (getBuiltInMarkers host) ''{{toString}}'' [] = Returns (''[object Undefined]'', [])"
  by code_simp

text \<open>
  Claim C8. A marker function that throws \<open>null\<close> or \<open>undefined\<close> is caught, but the
  handler then reads \<open>error.message\<close>, which throws a TypeError outside any handler.
\<close>

theorem nullish_throw_escapes:
  "process ((getBuiltInMarkers host)(''boom'' := Some (throwing_marker Raised_nullish))) ''{{boom}}'' []
     = Throws TypeError"
  by code_simp

end
